theory Spec2Isabelle
  imports Complex_Main
begin

section \<open>SmartPlate AI: the recognition client and the scan history\<close>

text \<open>
  The development follows \<^verbatim>\<open>src/App.tsx\<close> (the \<^verbatim>\<open>App\<close> component: its five
  state cells, its two effects and its handlers), \<^verbatim>\<open>src/services/geminiService.ts\<close>
  (\<^verbatim>\<open>recognizePlate\<close>) and the two interfaces \<^verbatim>\<open>ScanResult\<close> and
  \<^verbatim>\<open>RecognitionData\<close>.
\<close>

subsection \<open>Values and texts\<close>

text \<open>
  What \<^verbatim>\<open>JSON.parse\<close> can return, and \<^verbatim>\<open>undefined\<close> for a property that an
  object does not have. The cast \<^verbatim>\<open>JSON.parse(text) as RecognitionData\<close> checks nothing at
  run time, so the reply of the service stays a value of this type. A finite number is kept
  as a rational; the program never computes with one.
\<close>

datatype jsvalue =
    JUndefined
  | JNull
  | JBool bool
  | JNumber rat
  | JString string
  | JArray "jsvalue list"
  | JObject "(string \<times> jsvalue) list"

text \<open>
  The exceptions that reach a \<^verbatim>\<open>catch\<close>: the rejection of the request to the service,
  \<^verbatim>\<open>new Error(msg)\<close>, the \<^verbatim>\<open>SyntaxError\<close> of \<^verbatim>\<open>JSON.parse\<close>, and the
  \<^verbatim>\<open>TypeError\<close> of a property read on \<^verbatim>\<open>null\<close>.
\<close>

datatype exn = ServiceFailure | Error string | SyntaxError | TypeError

text \<open>
  A string that the program only tests for emptiness and hands to \<^verbatim>\<open>JSON.parse\<close> is
  kept by what \<^verbatim>\<open>JSON.parse\<close> makes of it: the empty string, a string that does not
  parse, or the serialisation of a value. \<^verbatim>\<open>JSON.stringify\<close> followed by
  \<^verbatim>\<open>JSON.parse\<close> gives the value back; the type parameter is the type at which the
  source reads the parsed value (\<^verbatim>\<open>ScanResult[]\<close> for the stored history, any value for
  the reply of the service).
\<close>

datatype 'a json_text = Empty | Malformed | Encodes 'a

fun JSON_parse :: "'a json_text \<Rightarrow> exn + 'a" where
  "JSON_parse Empty = Inl SyntaxError"
| "JSON_parse Malformed = Inl SyntaxError"
| "JSON_parse (Encodes v) = Inr v"

definition JSON_stringify :: "'a \<Rightarrow> 'a json_text" where
  "JSON_stringify v = Encodes v"

text \<open>\<^verbatim>\<open>if (saved)\<close> and \<^verbatim>\<open>if (!text)\<close>: \<^verbatim>\<open>null\<close>, \<^verbatim>\<open>undefined\<close> and the
  empty string are falsy, every other string is truthy.\<close>

fun truthy_text :: "'a json_text option \<Rightarrow> bool" where
  "truthy_text None = False"
| "truthy_text (Some Empty) = False"
| "truthy_text (Some t) = True"

fun truthy :: "string option \<Rightarrow> bool" where
  "truthy None = False"
| "truthy (Some s) = (s \<noteq> [])"

text \<open>
  A property read \<^verbatim>\<open>data.k\<close>. On \<^verbatim>\<open>null\<close> and \<^verbatim>\<open>undefined\<close> it throws; on an
  object it yields the property or \<^verbatim>\<open>undefined\<close>; on a boolean, number, string or
  array it yields \<^verbatim>\<open>undefined\<close> for each of the seven names read by the program (none
  of them is a built-in property).
\<close>

fun get_prop :: "jsvalue \<Rightarrow> string \<Rightarrow> exn + jsvalue" where
  "get_prop JUndefined k = Inl TypeError"
| "get_prop JNull k = Inl TypeError"
| "get_prop (JObject kvs) k = Inr (case map_of kvs k of None \<Rightarrow> JUndefined | Some v \<Rightarrow> v)"
| "get_prop v k = Inr JUndefined"

definition bind_exn :: "exn + 'a \<Rightarrow> ('a \<Rightarrow> exn + 'b) \<Rightarrow> exn + 'b" where
  "bind_exn m f = (case m of Inl e \<Rightarrow> Inl e | Inr x \<Rightarrow> f x)"

text \<open>\<^verbatim>\<open>Number.prototype.toString\<close> on a non-negative integer: its decimal digits.\<close>

definition digit_char :: "nat \<Rightarrow> char" where
  "digit_char d = char_of (48 + d)"

fun toString :: "nat \<Rightarrow> string" where
  "toString n = (if n < 10 then [digit_char n] else toString (n div 10) @ [digit_char (n mod 10)])"

declare toString.simps [simp del]

text \<open>\<^verbatim>\<open>s.split(c)\<close>, and \<^verbatim>\<open>parts[i]\<close> with \<^verbatim>\<open>undefined\<close> out of range.\<close>

fun split :: "char \<Rightarrow> string \<Rightarrow> string list" where
  "split c [] = [] # []"
| "split c (x # xs) =
     (if x = c then [] # split c xs
      else (case split c xs of [] \<Rightarrow> [x] # [] | p # ps \<Rightarrow> (x # p) # ps))"

definition index :: "'a list \<Rightarrow> nat \<Rightarrow> 'a option" where
  "index xs i = (if i < length xs then Some (xs ! i) else None)"

subsection \<open>The data model\<close>

record vehicle_details =
  make_v :: jsvalue
  model :: jsvalue
  color :: jsvalue
  type_v :: jsvalue

text \<open>
  \<^verbatim>\<open>ScanResult\<close>. The fields copied from the reply of the service hold whatever the
  reply held. \<^verbatim>\<open>id\<close> is written \<open>id_s\<close>, \<^verbatim>\<open>make\<close> and \<^verbatim>\<open>type\<close>
  are written \<open>make_v\<close> and \<open>type_v\<close>.
\<close>

record ScanResult =
  id_s :: string
  timestamp :: nat
  imageUrl :: string
  plateNumber :: jsvalue
  region :: jsvalue
  vehicle :: vehicle_details
  confidence :: jsvalue

subsection \<open>recognizePlate\<close>

text \<open>
  The request to the service either rejects or resolves with a response whose
  \<^verbatim>\<open>text\<close> is \<^verbatim>\<open>undefined\<close> or a string.
\<close>

datatype response = Rejects | Resolves "jsvalue json_text option"

fun recognizePlate :: "response \<Rightarrow> exn + jsvalue" where
  "recognizePlate Rejects = Inl ServiceFailure"
| "recognizePlate (Resolves text) =
     (if \<not> truthy_text text then Inl (Error ''Failed to get response from AI'')
      else (case text of None \<Rightarrow> Inl (Error ''Failed to get response from AI'')
            | Some t \<Rightarrow> JSON_parse t))"

subsection \<open>The component and its environment\<close>

text \<open>A call of \<^verbatim>\<open>processImage\<close> waiting for the service: the \<^verbatim>\<open>image\<close> its closure
  captured and the payload it sent.\<close>

record request =
  captured :: string
  base64Data :: "string option"

datatype console_line = Console_error "string option" exn

text \<open>
  The five state cells of \<^verbatim>\<open>App\<close> (\<^verbatim>\<open>image\<close> is written \<open>image_s\<close>), the entry
  \<^verbatim>\<open>plate_recognition_history\<close> of \<^verbatim>\<open>localStorage\<close>, the calls of
  \<^verbatim>\<open>processImage\<close> that wait for the service, and the console.
\<close>

record world =
  image_s :: "string option"
  isProcessing :: bool
  result :: "ScanResult option"
  history :: "ScanResult list"
  error :: "string option"
  storage :: "ScanResult list json_text option"
  inflight :: "request list"
  console :: "console_line list"

text \<open>
  The effect with dependency \<^verbatim>\<open>[history]\<close>. It runs after the first render and after
  every render in which \<^verbatim>\<open>history\<close> is a new array; each \<^verbatim>\<open>setHistory\<close> of the
  source stores a new array, so it runs after each of them. \<^verbatim>\<open>setItem\<close> is taken to
  succeed.
\<close>

definition save_history_effect :: "world \<Rightarrow> world" where
  "save_history_effect w = w\<lparr>storage := Some (JSON_stringify (history w))\<rparr>"

text \<open>The effect with no dependency: what it passes to \<^verbatim>\<open>setHistory\<close>, if it calls it,
  and what it logs.\<close>

definition load_history_effect ::
  "ScanResult list json_text option \<Rightarrow> ScanResult list option \<times> console_line list" where
  "load_history_effect saved =
     (if truthy_text saved then
        (case saved of None \<Rightarrow> (None, [])
         | Some t \<Rightarrow>
            (case JSON_parse t of
               Inr h \<Rightarrow> (Some h, [])
             | Inl e \<Rightarrow> (None, [Console_error (Some ''Failed to parse history'') e])))
      else (None, []))"

text \<open>
  Mounting: the first render has the initial state; the load effect reads the entry, the
  save effect then writes the initial (empty) history; if the load effect called
  \<^verbatim>\<open>setHistory\<close>, the next render has the loaded history and the save effect runs again.
\<close>

definition mount :: "ScanResult list json_text option \<Rightarrow> world" where
  "mount saved =
     (let w0 = \<lparr>image_s = None, isProcessing = False, result = None, history = [],
                error = None, storage = saved, inflight = [], console = []\<rparr>;
          (loaded, logged) = load_history_effect (storage w0);
          w1 = save_history_effect (w0\<lparr>console := console w0 @ logged\<rparr>)
      in (case loaded of None \<Rightarrow> w1
          | Some h \<Rightarrow> save_history_effect (w1\<lparr>history := h\<rparr>)))"

text \<open>\<^verbatim>\<open>[newResult, ...prev].slice(0, 10)\<close> and
  \<^verbatim>\<open>prev.filter(item => item.id !== id)\<close>.\<close>

definition prepend :: "ScanResult \<Rightarrow> ScanResult list \<Rightarrow> ScanResult list" where
  "prepend newResult prev = take 10 (newResult # prev)"

definition remove_by_id :: "string \<Rightarrow> ScanResult list \<Rightarrow> ScanResult list" where
  "remove_by_id i prev = filter (\<lambda>item. id_s item \<noteq> i) prev"

text \<open>\<^verbatim>\<open>handleFileUpload\<close>, once the reader has finished with \<^verbatim>\<open>reader.result\<close>.\<close>

definition handleFileUpload :: "string option \<Rightarrow> world \<Rightarrow> world" where
  "handleFileUpload r w = w\<lparr>image_s := r, result := None, error := None\<rparr>"

definition discardImage :: "world \<Rightarrow> world" where
  "discardImage w = w\<lparr>image_s := None, result := None, error := None\<rparr>"

text \<open>
  \<^verbatim>\<open>processImage\<close> up to its \<^verbatim>\<open>await\<close>. It tests \<^verbatim>\<open>image\<close> only, not
  \<^verbatim>\<open>isProcessing\<close>.
\<close>

definition processImage_start :: "world \<Rightarrow> world" where
  "processImage_start w =
     (if \<not> truthy (image_s w) then w
      else (case image_s w of None \<Rightarrow> w
            | Some img \<Rightarrow>
                w\<lparr>isProcessing := True, error := None,
                  inflight := inflight w @
                    [\<lparr>captured = img, base64Data = index (split (CHR '','') img) 1\<rparr>]\<rparr>))"

text \<open>
  The object literal \<^verbatim>\<open>newResult\<close>: \<^verbatim>\<open>Date.now()\<close> is called twice, first for
  \<^verbatim>\<open>id\<close> (reading \<open>t1\<close>), then for \<^verbatim>\<open>timestamp\<close> (reading \<open>t2\<close>); the seven
  properties of \<^verbatim>\<open>data\<close> are read in the order of the source.
\<close>

definition newResult :: "string \<Rightarrow> nat \<Rightarrow> nat \<Rightarrow> jsvalue \<Rightarrow> exn + ScanResult" where
  "newResult img t1 t2 data =
     bind_exn (get_prop data ''plate_number'') (\<lambda>pn.
     bind_exn (get_prop data ''region'') (\<lambda>rg.
     bind_exn (get_prop data ''vehicle_make'') (\<lambda>mk.
     bind_exn (get_prop data ''vehicle_model'') (\<lambda>md.
     bind_exn (get_prop data ''vehicle_color'') (\<lambda>cl.
     bind_exn (get_prop data ''vehicle_type'') (\<lambda>ty.
     bind_exn (get_prop data ''confidence_score'') (\<lambda>cs.
       Inr \<lparr>id_s = toString t1, timestamp = t2, imageUrl = img,
            plateNumber = pn, region = rg,
            vehicle = \<lparr>make_v = mk, model = md, color = cl, type_v = ty\<rparr>,
            confidence = cs\<rparr>)))))))"

text \<open>The body of the \<^verbatim>\<open>try\<close> block after the request has settled.\<close>

definition try_block :: "request \<Rightarrow> response \<Rightarrow> nat \<Rightarrow> nat \<Rightarrow> exn + ScanResult" where
  "try_block req resp t1 t2 = bind_exn (recognizePlate resp) (newResult (captured req) t1 t2)"

text \<open>
  \<^verbatim>\<open>processImage\<close> from its \<^verbatim>\<open>await\<close> on, for the waiting call number \<open>i\<close>:
  the \<^verbatim>\<open>try\<close> block, \<^verbatim>\<open>catch\<close>, \<^verbatim>\<open>finally\<close>. Nothing happens when no such call
  waits.
\<close>

definition processImage_settle :: "nat \<Rightarrow> response \<Rightarrow> nat \<Rightarrow> nat \<Rightarrow> world \<Rightarrow> world" where
  "processImage_settle i resp t1 t2 w =
     (case index (inflight w) i of None \<Rightarrow> w
      | Some req \<Rightarrow>
         (let w0 = w\<lparr>inflight := take i (inflight w) @ drop (Suc i) (inflight w)\<rparr> in
          (case try_block req resp t1 t2 of
             Inr r \<Rightarrow>
               save_history_effect
                 (w0\<lparr>result := Some r, history := prepend r (history w0),
                     isProcessing := False\<rparr>)
           | Inl err \<Rightarrow>
               w0\<lparr>console := console w0 @ [Console_error None err],
                  error := Some ''Failed to recognize plate. Please try a clearer image.'',
                  isProcessing := False\<rparr>)))"

text \<open>\<^verbatim>\<open>clearHistory\<close>, given the answer of \<^verbatim>\<open>window.confirm\<close>: \<^verbatim>\<open>setHistory([])\<close>,
  \<^verbatim>\<open>removeItem\<close>, and then the save effect of the render that follows.\<close>

definition clearHistory :: "bool \<Rightarrow> world \<Rightarrow> world" where
  "clearHistory confirmed w =
     (if confirmed then save_history_effect ((w\<lparr>history := []\<rparr>)\<lparr>storage := None\<rparr>) else w)"

definition deleteHistoryItem :: "string \<Rightarrow> world \<Rightarrow> world" where
  "deleteHistoryItem i w = save_history_effect (w\<lparr>history := remove_by_id i (history w)\<rparr>)"

text \<open>
  What the user and the service can do. A button acts only while it is rendered and not
  disabled: the discard and recognize buttons are rendered while \<^verbatim>\<open>image\<close> is truthy,
  the recognize button has \<^verbatim>\<open>disabled={isProcessing}\<close>, the clear button is rendered
  while the history is not empty, and there is one delete button for each record of the
  history.
\<close>

datatype event =
    FileRead "string option"
  | DiscardClicked
  | RecognizeClicked
  | Settled nat response nat nat
  | ClearClicked bool
  | DeleteClicked string

fun step :: "world \<Rightarrow> event \<Rightarrow> world" where
  "step w (FileRead r) = handleFileUpload r w"
| "step w DiscardClicked = (if truthy (image_s w) then discardImage w else w)"
| "step w RecognizeClicked =
     (if truthy (image_s w) \<and> \<not> isProcessing w then processImage_start w else w)"
| "step w (Settled i resp t1 t2) = processImage_settle i resp t1 t2 w"
| "step w (ClearClicked confirmed) = (if history w \<noteq> [] then clearHistory confirmed w else w)"
| "step w (DeleteClicked i) =
     (if i \<in> set (map id_s (history w)) then deleteHistoryItem i w else w)"

definition run :: "world \<Rightarrow> event list \<Rightarrow> world" where
  "run w es = foldl step w es"

text \<open>The state in which at most one call of \<^verbatim>\<open>processImage\<close> waits for the service,
  and \<^verbatim>\<open>isProcessing\<close> says whether one does.\<close>

definition one_call_at_most :: "world \<Rightarrow> bool" where
  "one_call_at_most w = (length (inflight w) \<le> 1 \<and> (isProcessing w = (inflight w \<noteq> [])))"

text \<open>The record of the example scenario of the specification, used as a concrete input.\<close>

abbreviation (input) example_scan :: ScanResult where
  "example_scan \<equiv>
     \<lparr>id_s = ''1700000000001'', timestamp = 1700000000001,
      imageUrl = ''data:image/png;base64,AAAA'',
      plateNumber = JString ''ABC123'', region = JString ''CA'',
      vehicle = \<lparr>make_v = JString ''Toyota'', model = JString ''Camry'',
                   color = JString ''Blue'', type_v = JString ''Sedan''\<rparr>,
      confidence = JString ''High''\<rparr>"

section \<open>Properties\<close>

subsection \<open>Shared facts\<close>

lemma prepend_Cons: "prepend r g = r # take 9 g"
  by (simp add: prepend_def numeral_eq_Suc)

lemma length_prepend: "length (prepend r g) = min 10 (Suc (length g))"
  by (simp add: prepend_def)

lemma length_remove_by_id_le: "length (remove_by_id i h) \<le> length h"
  by (simp add: remove_by_id_def)

lemma history_mount:
  "history (mount saved) = (case saved of Some (Encodes h) \<Rightarrow> h | _ \<Rightarrow> [])"
  by (simp add: mount_def load_history_effect_def save_history_effect_def
      split: option.splits json_text.splits)


lemma settle_success:
  assumes "i < length (inflight w)" and "try_block (inflight w ! i) resp t1 t2 = Inr r"
  shows "processImage_settle i resp t1 t2 w =
           w\<lparr>inflight := take i (inflight w) @ drop (Suc i) (inflight w),
             result := Some r, history := prepend r (history w), isProcessing := False,
             storage := Some (Encodes (prepend r (history w)))\<rparr>"
  using assms
  by (simp add: processImage_settle_def index_def save_history_effect_def JSON_stringify_def)


lemma try_block_Inr:
  assumes "try_block req resp t1 t2 = Inr r"
  shows "id_s r = toString t1 \<and> timestamp r = t2"
proof -
  obtain data where "newResult (captured req) t1 t2 data = Inr r"
    using assms by (auto simp: try_block_def bind_exn_def split: sum.splits)
  then show ?thesis
    by (auto simp: newResult_def bind_exn_def split: sum.splits)
qed

subsection \<open>The bound on the history\<close>

lemma history_settle_cases:
  "history (processImage_settle i resp t1 t2 w) = history w \<or>
   (\<exists>r. history (processImage_settle i resp t1 t2 w) = prepend r (history w))"
  by (auto simp: processImage_settle_def save_history_effect_def Let_def
      split: option.splits sum.splits)

lemma length_history_step: "length (history (step w e)) \<le> max 10 (length (history w))"
proof (cases e)
  case (Settled i resp t1 t2)
  show ?thesis
    using history_settle_cases [of i resp t1 t2 w]
    by (auto simp: Settled length_prepend)
next
  case (DeleteClicked i)
  show ?thesis
    using length_remove_by_id_le [of i "history w"]
    by (auto simp: DeleteClicked deleteHistoryItem_def save_history_effect_def)
qed (simp_all add: handleFileUpload_def discardImage_def processImage_start_def
      clearHistory_def save_history_effect_def split: option.splits)

lemma length_history_run: "length (history (run w es)) \<le> max 10 (length (history w))"
proof (induction es arbitrary: w)
  case Nil
  show ?case by (simp add: run_def)
next
  case (Cons e es)
  have "length (history (run (step w e) es)) \<le> max 10 (length (history (step w e)))"
    using Cons.IH by simp
  also have "\<dots> \<le> max 10 (length (history w))"
    using length_history_step [of w e] by simp
  finally show ?case by (simp add: run_def)
qed

text \<open>
  C1, as the code has it: loading restores the stored collection as it is, without
  trimming it. No event, and no sequence of events, makes the history longer than the
  larger of 10 and its length before, and a prepend yields at most 10 records from any
  history. So when the stored entry holds at most 10 records, or is absent, empty or
  unparsable, the history has at most 10 records after loading and after every sequence
  of events that follows.
\<close>

theorem history_length_bounded:
  "history (mount (Some (Encodes h))) = h \<and>
   length (history (step w e)) \<le> max 10 (length (history w)) \<and>
   length (prepend r (history w)) \<le> 10 \<and>
   length (history (run w es)) \<le> max 10 (length (history w)) \<and>
   (length h \<le> 10 \<longrightarrow> length (history (run (mount (Some (Encodes h))) es)) \<le> 10) \<and>
   (saved = None \<or> saved = Some Empty \<or> saved = Some Malformed \<longrightarrow>
      length (history (run (mount saved) es)) \<le> 10)"
proof -
  have bounded: "length (history (run (mount s) es)) \<le> 10"
    if "length (history (mount s)) \<le> 10" for s
    using that length_history_run [of "mount s" es] by simp
  have a: "length (history (run (mount (Some (Encodes h))) es)) \<le> 10" if "length h \<le> 10"
    using that by (intro bounded) (simp add: history_mount)
  have b: "length (history (run (mount saved) es)) \<le> 10"
    if "saved = None \<or> saved = Some Empty \<or> saved = Some Malformed"
    using that by (intro bounded) (auto simp: history_mount)
  show ?thesis
    using a b
    by (simp add: history_mount length_history_step length_history_run length_prepend)
qed

theorem history_length_bounded_witness:
  "length (replicate 10 example_scan) \<le> 10 \<and>
   length (history (run (mount (Some (Encodes (replicate 10 example_scan))))
      [FileRead (Some ''data:image/png;base64,AAAA''), RecognizeClicked,
       Settled 0 (Resolves (Some (Encodes (JObject [(''plate_number'', JString ''XYZ789'')]))))
         1700000000999 1700000000999])) \<le> 10 \<and>
   length (history (run (mount (Some (Encodes (replicate 10 example_scan))))
      [FileRead (Some ''data:image/png;base64,AAAA''), RecognizeClicked,
       Settled 0 (Resolves (Some (Encodes (JObject [(''plate_number'', JString ''XYZ789'')]))))
         1700000000999 1700000000999])) = 10 \<and>
   plateNumber (history (run (mount (Some (Encodes (replicate 10 example_scan))))
      [FileRead (Some ''data:image/png;base64,AAAA''), RecognizeClicked,
       Settled 0 (Resolves (Some (Encodes (JObject [(''plate_number'', JString ''XYZ789'')]))))
         1700000000999 1700000000999]) ! 0) = JString ''XYZ789'' \<and>
   length (history (run (mount None)
      [FileRead (Some ''data:image/png;base64,AAAA''), RecognizeClicked,
       Settled 0 (Resolves (Some (Encodes (JObject [(''plate_number'', JString ''XYZ789'')]))))
         1700000000999 1700000000999])) = 1"
  using history_length_bounded
          [of "replicate 10 example_scan" "mount None" DiscardClicked example_scan
              "[FileRead (Some ''data:image/png;base64,AAAA''), RecognizeClicked,
       Settled 0 (Resolves (Some (Encodes (JObject [(''plate_number'', JString ''XYZ789'')]))))
         1700000000999 1700000000999]" None]
  by (simp add: run_def mount_def load_history_effect_def save_history_effect_def
      handleFileUpload_def processImage_start_def processImage_settle_def index_def
      try_block_def newResult_def bind_exn_def prepend_def)

text \<open>A stored collection of 11 records is loaded as it is: the history has 11 records
  right after loading.\<close>

theorem load_keeps_stored_length_counterexample:
  "\<not> length (history (mount (Some (Encodes (replicate 11 example_scan))))) \<le> 10"
  by (simp add: history_mount)

subsection \<open>The reply of the service is not validated\<close>




subsection \<open>Prepending\<close>

text \<open>
  C3: prepending puts the new record in front and keeps the first 9 of the former
  records, so the result has at most 10 records. On a history of exactly 10 records the
  result has 10 records, the new one at index 0, the former records 0..8 at indices 1..9,
  and the record dropped is the former record 9, the oldest.
\<close>

theorem prepend_drops_oldest:
  "prepend r g = r # take 9 g \<and>
   length (prepend r g) = min 10 (Suc (length g)) \<and>
   (length h = 10 \<longrightarrow>
      length (prepend r h) = 10 \<and> prepend r h ! 0 = r \<and>
      (\<forall>i<9. prepend r h ! Suc i = h ! i) \<and>
      prepend r h = r # butlast h \<and> h = butlast h @ [h ! 9])"
proof -
  have full: "length (prepend r h) = 10 \<and> prepend r h ! 0 = r \<and>
      (\<forall>i<9. prepend r h ! Suc i = h ! i) \<and>
      prepend r h = r # butlast h \<and> h = butlast h @ [h ! 9]" if h: "length h = 10"
  proof -
    have ne: "h \<noteq> []" using h by auto
    have "last h = h ! 9" using h ne by (simp add: last_conv_nth)
    then have parts: "h = butlast h @ [h ! 9]" using ne by (metis append_butlast_last_id)
    have bl: "take 9 h = butlast h" using h by (simp add: butlast_conv_take)
    have shift: "\<forall>i<9. prepend r h ! Suc i = h ! i" by (simp add: prepend_Cons)
    have "prepend r h = r # butlast h" using bl by (simp add: prepend_Cons)
    moreover have "length (prepend r h) = 10" using h by (simp add: length_prepend)
    moreover have "prepend r h ! 0 = r" by (simp add: prepend_Cons)
    ultimately show ?thesis using parts shift by blast
  qed
  show ?thesis using prepend_Cons length_prepend full by blast
qed

theorem prepend_drops_oldest_witness:
  "length (replicate 10 example_scan) = 10 \<and>
   prepend (example_scan\<lparr>id_s := ''1700000000999''\<rparr>) (replicate 10 example_scan)
     = example_scan\<lparr>id_s := ''1700000000999''\<rparr> # butlast (replicate 10 example_scan)"
  using prepend_drops_oldest
          [of "example_scan\<lparr>id_s := ''1700000000999''\<rparr>" "[]" "replicate 10 example_scan"]
  by simp

subsection \<open>Clearing\<close>

text \<open>
  C4, evaluated on the code: a confirmed \<^verbatim>\<open>clearHistory\<close> empties the history and
  calls \<^verbatim>\<open>removeItem\<close>, and the save effect of the render that follows writes the entry
  again, as the serialisation of the empty history. The entry is therefore present
  afterwards; loading it yields the empty history. An unconfirmed \<^verbatim>\<open>clearHistory\<close>
  changes nothing.
\<close>

theorem clearHistory_entry_rewritten:
  "history (clearHistory True w) = [] \<and>
   storage (clearHistory True w) = Some (Encodes []) \<and>
   storage (clearHistory True w) \<noteq> None \<and>
   history (mount (storage (clearHistory True w))) = [] \<and>
   clearHistory False w = w \<and>
   step w (ClearClicked c) = (if history w \<noteq> [] then clearHistory c w else w)"
  by (simp add: clearHistory_def save_history_effect_def JSON_stringify_def history_mount)

theorem clearHistory_entry_rewritten_witness:
  "history (mount (Some (Encodes [example_scan]))) \<noteq> [] \<and>
   storage (step (mount (Some (Encodes [example_scan]))) (ClearClicked True))
     = Some (Encodes []) \<and>
   history (step (mount (Some (Encodes [example_scan]))) (ClearClicked True)) = []"
  using clearHistory_entry_rewritten [of "mount (Some (Encodes [example_scan]))" True]
  by (simp add: history_mount)

subsection \<open>Removing by identifier\<close>

lemma remove_by_id_absent: "i \<notin> set (map id_s h) \<Longrightarrow> remove_by_id i h = h"
  by (induction h) (auto simp: remove_by_id_def)

lemma remove_by_id_distinct:
  "distinct (map id_s h) \<Longrightarrow> r \<in> set h \<Longrightarrow> remove_by_id (id_s r) h = remove1 r h"
proof (induction h)
  case Nil
  then show ?case by simp
next
  case (Cons x h)
  show ?case
  proof (cases "x = r")
    case True
    then have "id_s r \<notin> set (map id_s h)" using Cons.prems(1) by simp
    then have "remove_by_id (id_s r) h = h" by (rule remove_by_id_absent)
    then show ?thesis using True by (simp add: remove_by_id_def)
  next
    case False
    then have rh: "r \<in> set h" using Cons.prems(2) by simp
    then have "id_s x \<noteq> id_s r" using Cons.prems(1) by auto
    moreover have "remove_by_id (id_s r) h = remove1 r h"
      using Cons.IH Cons.prems(1) rh by simp
    ultimately show ?thesis using False by (simp add: remove_by_id_def)
  qed
qed

text \<open>
  C5, as the code has it: removing by identifier keeps exactly the records whose
  identifier differs from the given one, so it removes every record that has the
  identifier. When no record has it, the history is unchanged. When the identifiers of
  the history are pairwise distinct and one record has it, exactly that one record is
  removed. \<^verbatim>\<open>deleteHistoryItem\<close> stores this list as the new history, and nothing in it
  can fail.
\<close>

theorem remove_by_id_removes_matching:
  "set (remove_by_id i h) = {r \<in> set h. id_s r \<noteq> i} \<and>
   length (remove_by_id i h) + length (filter (\<lambda>r. id_s r = i) h) = length h \<and>
   (i \<notin> set (map id_s h) \<longrightarrow> remove_by_id i h = h) \<and>
   (distinct (map id_s h) \<and> i \<in> set (map id_s h) \<longrightarrow>
      length (remove_by_id i h) + 1 = length h \<and>
      (\<exists>r. r \<in> set h \<and> id_s r = i \<and> remove_by_id i h = remove1 r h)) \<and>
   history (deleteHistoryItem i w) = remove_by_id i (history w)"
proof -
  have a: "set (remove_by_id i h) = {r \<in> set h. id_s r \<noteq> i}"
    by (auto simp: remove_by_id_def)
  have b: "length (remove_by_id i h) + length (filter (\<lambda>r. id_s r = i) h) = length h"
    using sum_length_filter_compl [of "\<lambda>r. id_s r \<noteq> i" h] by (simp add: remove_by_id_def)
  have c: "length (remove_by_id i h) + 1 = length h \<and>
      (\<exists>r. r \<in> set h \<and> id_s r = i \<and> remove_by_id i h = remove1 r h)"
    if d: "distinct (map id_s h)" and m: "i \<in> set (map id_s h)"
  proof -
    obtain r where r: "r \<in> set h" "id_s r = i" using m by auto
    have eq: "remove_by_id i h = remove1 r h"
      using remove_by_id_distinct [OF d r(1)] r(2) by simp
    have "0 < length h" using r(1) by (cases h) auto
    then have "length (remove1 r h) + 1 = length h"
      using r(1) by (simp add: length_remove1)
    then show ?thesis using eq r by auto
  qed
  have e: "history (deleteHistoryItem i w) = remove_by_id i (history w)"
    by (simp add: deleteHistoryItem_def save_history_effect_def)
  show ?thesis using a b c e remove_by_id_absent [of i h] by blast
qed

theorem remove_by_id_removes_matching_witness:
  "distinct (map id_s [example_scan, example_scan\<lparr>id_s := ''1700000000999''\<rparr>]) \<and>
   ''1700000000999'' \<in> set (map id_s [example_scan, example_scan\<lparr>id_s := ''1700000000999''\<rparr>]) \<and>
   ''42'' \<notin> set (map id_s [example_scan, example_scan\<lparr>id_s := ''1700000000999''\<rparr>]) \<and>
   length (remove_by_id ''1700000000999''
             [example_scan, example_scan\<lparr>id_s := ''1700000000999''\<rparr>]) + 1
     = length [example_scan, example_scan\<lparr>id_s := ''1700000000999''\<rparr>] \<and>
   remove_by_id ''42'' [example_scan, example_scan\<lparr>id_s := ''1700000000999''\<rparr>]
     = [example_scan, example_scan\<lparr>id_s := ''1700000000999''\<rparr>]"
  using remove_by_id_removes_matching
          [of "''1700000000999''" "[example_scan, example_scan\<lparr>id_s := ''1700000000999''\<rparr>]"
              "mount None"]
        remove_by_id_removes_matching
          [of "''42''" "[example_scan, example_scan\<lparr>id_s := ''1700000000999''\<rparr>]"
              "mount None"]
  by simp

text \<open>Two recognitions whose first clock reading is the same give two records with one
  identifier; deleting by that identifier removes both.\<close>

theorem remove_by_id_shared_identifier_counterexample:
  "length (history (run (mount None)
      [FileRead (Some ''data:image/png;base64,AAAA''),
       RecognizeClicked, Settled 0 (Resolves (Some (Encodes (JObject [])))) 5 5,
       RecognizeClicked, Settled 0 (Resolves (Some (Encodes (JObject [])))) 5 6])) = 2 \<and>
   toString 5 \<in> set (map id_s (history (run (mount None)
      [FileRead (Some ''data:image/png;base64,AAAA''),
       RecognizeClicked, Settled 0 (Resolves (Some (Encodes (JObject [])))) 5 5,
       RecognizeClicked, Settled 0 (Resolves (Some (Encodes (JObject [])))) 5 6]))) \<and>
   length (history (run (mount None)
      [FileRead (Some ''data:image/png;base64,AAAA''),
       RecognizeClicked, Settled 0 (Resolves (Some (Encodes (JObject [])))) 5 5,
       RecognizeClicked, Settled 0 (Resolves (Some (Encodes (JObject [])))) 5 6,
       DeleteClicked (toString 5)])) = 0"
  by (simp add: run_def mount_def load_history_effect_def save_history_effect_def
      handleFileUpload_def processImage_start_def processImage_settle_def index_def
      try_block_def newResult_def bind_exn_def prepend_def deleteHistoryItem_def
      remove_by_id_def)

subsection \<open>One recognition at a time\<close>

lemma mount_one_call: "one_call_at_most (mount saved)"
  by (simp add: one_call_at_most_def mount_def load_history_effect_def save_history_effect_def
      split: option.splits sum.splits prod.splits)

lemma settle_one_call:
  assumes "one_call_at_most w"
  shows "one_call_at_most (processImage_settle i resp t1 t2 w)"
proof (cases "index (inflight w) i")
  case None
  then show ?thesis using assms by (simp add: processImage_settle_def)
next
  case (Some req)
  then have i: "i < length (inflight w)" and req: "req = inflight w ! i"
    by (simp_all add: index_def split: if_splits)
  have "length (inflight w) \<le> 1" using assms by (simp add: one_call_at_most_def)
  then have i0: "i = 0" and one: "inflight w = [req]"
    using i req by (cases "inflight w"; simp)+
  show ?thesis
  proof (cases "try_block req resp t1 t2")
    case (Inl err)
    then show ?thesis
      by (simp add: processImage_settle_def one_call_at_most_def index_def i0 one)
  next
    case (Inr r)
    then show ?thesis
      by (simp add: processImage_settle_def one_call_at_most_def index_def i0 one
          save_history_effect_def)
  qed
qed

lemma step_one_call: "one_call_at_most w \<Longrightarrow> one_call_at_most (step w e)"
proof (cases e)
  case (Settled i resp t1 t2)
  assume "one_call_at_most w"
  then show ?thesis by (simp add: Settled settle_one_call)
next
  case RecognizeClicked
  assume "one_call_at_most w"
  then show ?thesis
    by (auto simp: RecognizeClicked one_call_at_most_def processImage_start_def
        split: option.splits)
qed (simp_all add: one_call_at_most_def handleFileUpload_def discardImage_def
      clearHistory_def deleteHistoryItem_def save_history_effect_def)

lemma run_one_call: "one_call_at_most w \<Longrightarrow> one_call_at_most (run w es)"
proof (induction es arbitrary: w)
  case Nil
  then show ?case by (simp add: run_def)
next
  case (Cons e es)
  have "one_call_at_most (run (step w e) es)"
    using Cons.IH [OF step_one_call [OF Cons.prems]] .
  then show ?case by (simp add: run_def)
qed

lemma isProcessing_cleared_only_by_settle:
  assumes "isProcessing w" and "\<not> isProcessing (step w e)"
  shows "\<exists>i resp t1 t2. e = Settled i resp t1 t2 \<and> i < length (inflight w)"
proof (cases e)
  case (Settled i resp t1 t2)
  have "i < length (inflight w)"
  proof (rule ccontr)
    assume "\<not> i < length (inflight w)"
    then have "step w e = w" by (simp add: Settled processImage_settle_def index_def)
    then show False using assms by simp
  qed
  then show ?thesis using Settled by blast
next
  case RecognizeClicked
  then show ?thesis
    using assms by (auto simp: processImage_start_def split: option.splits if_splits)
qed (use assms in \<open>auto simp: handleFileUpload_def discardImage_def clearHistory_def
      deleteHistoryItem_def save_history_effect_def split: if_splits\<close>)

text \<open>
  C6: in every state \<open>w\<close> that the component reaches from mounting, at most one call of
  \<^verbatim>\<open>processImage\<close> waits for the service, and \<^verbatim>\<open>isProcessing\<close> holds exactly while
  one does. While it holds, a click on the recognize button changes nothing (the button is
  disabled); only the settling of a waiting call can end it; and the settling of the
  waiting call, with any response, ends it and leaves no call waiting. The state after
  the settling is the state before with the outcome of that one call and nothing else: on
  success \<^verbatim>\<open>result\<close> is the record built, the history is that record prepended and the
  entry is saved; on failure \<^verbatim>\<open>error\<close> is the message, the exception is logged, and
  \<^verbatim>\<open>result\<close> and the history are untouched.
\<close>

theorem single_recognition_in_flight:
  assumes "w = run (mount saved) es"
  shows "length (inflight w) \<le> 1 \<and>
         (isProcessing w \<longleftrightarrow> inflight w \<noteq> []) \<and>
         (isProcessing w \<longrightarrow> step w RecognizeClicked = w) \<and>
         (isProcessing w \<and> \<not> isProcessing (step w e) \<longrightarrow>
            (\<exists>i resp t1 t2. e = Settled i resp t1 t2 \<and> i < length (inflight w))) \<and>
         (isProcessing w \<longrightarrow>
            \<not> isProcessing (step w (Settled 0 resp t1 t2)) \<and>
            inflight (step w (Settled 0 resp t1 t2)) = []) \<and>
         (isProcessing w \<longrightarrow>
            step w (Settled 0 resp t1 t2) =
              (case try_block (inflight w ! 0) resp t1 t2 of
                 Inr r \<Rightarrow>
                   w\<lparr>inflight := [], result := Some r, history := prepend r (history w),
                     isProcessing := False,
                     storage := Some (Encodes (prepend r (history w)))\<rparr>
               | Inl err \<Rightarrow>
                   w\<lparr>inflight := [], console := console w @ [Console_error None err],
                     error := Some ''Failed to recognize plate. Please try a clearer image.'',
                     isProcessing := False\<rparr>))"
proof -
  have inv: "one_call_at_most w"
    using assms run_one_call [OF mount_one_call] by simp
  have a: "length (inflight w) \<le> 1" and b: "isProcessing w \<longleftrightarrow> inflight w \<noteq> []"
    using inv by (simp_all add: one_call_at_most_def)
  have c: "isProcessing w \<longrightarrow> step w RecognizeClicked = w"
    by simp
  have d: "isProcessing w \<and> \<not> isProcessing (step w e) \<longrightarrow>
            (\<exists>i resp t1 t2. e = Settled i resp t1 t2 \<and> i < length (inflight w))"
    using isProcessing_cleared_only_by_settle [of w e] by blast
  have g: "step w (Settled 0 resp t1 t2) =
              (case try_block (inflight w ! 0) resp t1 t2 of
                 Inr r \<Rightarrow>
                   w\<lparr>inflight := [], result := Some r, history := prepend r (history w),
                     isProcessing := False,
                     storage := Some (Encodes (prepend r (history w)))\<rparr>
               | Inl err \<Rightarrow>
                   w\<lparr>inflight := [], console := console w @ [Console_error None err],
                     error := Some ''Failed to recognize plate. Please try a clearer image.'',
                     isProcessing := False\<rparr>)" if p: "isProcessing w"
  proof -
    have "length (inflight w) = 1" using a b p by (cases "inflight w") auto
    then obtain req where one: "inflight w = [req]" by (cases "inflight w") auto
    show ?thesis
      by (cases "try_block req resp t1 t2")
         (simp_all add: one processImage_settle_def index_def save_history_effect_def
            JSON_stringify_def)
  qed
  have f: "\<not> isProcessing (step w (Settled 0 resp t1 t2)) \<and>
            inflight (step w (Settled 0 resp t1 t2)) = []" if p: "isProcessing w"
    using g [OF p] by (simp split: sum.splits)
  show ?thesis using a b c d f g by blast
qed

theorem single_recognition_in_flight_witness:
  "isProcessing (run (mount None)
      [FileRead (Some ''data:image/png;base64,AAAA''), RecognizeClicked]) \<and>
   step (run (mount None) [FileRead (Some ''data:image/png;base64,AAAA''), RecognizeClicked])
        RecognizeClicked
     = run (mount None) [FileRead (Some ''data:image/png;base64,AAAA''), RecognizeClicked] \<and>
   length (inflight (run (mount None)
     [FileRead (Some ''data:image/png;base64,AAAA''), RecognizeClicked, RecognizeClicked])) \<le> 1 \<and>
   map_option plateNumber (result (step (run (mount None)
        [FileRead (Some ''data:image/png;base64,AAAA''), RecognizeClicked])
      (Settled 0 (Resolves (Some (Encodes (JObject [(''plate_number'', JString ''XYZ789'')]))))
         7 8))) = Some (JString ''XYZ789'') \<and>
   length (history (step (run (mount None)
        [FileRead (Some ''data:image/png;base64,AAAA''), RecognizeClicked])
      (Settled 0 (Resolves (Some (Encodes (JObject [(''plate_number'', JString ''XYZ789'')]))))
         7 8))) = 1 \<and>
   error (step (run (mount None)
        [FileRead (Some ''data:image/png;base64,AAAA''), RecognizeClicked])
      (Settled 0 (Resolves (Some Malformed)) 7 8)) =
     Some ''Failed to recognize plate. Please try a clearer image.'' \<and>
   history (step (run (mount None)
        [FileRead (Some ''data:image/png;base64,AAAA''), RecognizeClicked])
      (Settled 0 (Resolves (Some Malformed)) 7 8)) = []"
proof -
  let ?w = "run (mount None) [FileRead (Some ''data:image/png;base64,AAAA''), RecognizeClicked]"
  have busy: "isProcessing ?w" and waiting: "inflight ?w ! 0 =
      \<lparr>captured = ''data:image/png;base64,AAAA'', base64Data = Some ''AAAA''\<rparr>"
    and start: "history ?w = []"
    by (simp_all add: run_def mount_def load_history_effect_def save_history_effect_def
      handleFileUpload_def processImage_start_def index_def)
  have ok: "try_block (inflight ?w ! 0)
      (Resolves (Some (Encodes (JObject [(''plate_number'', JString ''XYZ789'')])))) 7 8 =
      Inr \<lparr>id_s = toString 7, timestamp = 8, imageUrl = ''data:image/png;base64,AAAA'',
          plateNumber = JString ''XYZ789'', region = JUndefined,
          vehicle = \<lparr>make_v = JUndefined, model = JUndefined, color = JUndefined,
                     type_v = JUndefined\<rparr>,
          confidence = JUndefined\<rparr>"
    by (simp add: waiting try_block_def newResult_def bind_exn_def)
  have bad: "try_block (inflight ?w ! 0) (Resolves (Some Malformed)) 7 8 = Inl SyntaxError"
    by (simp add: try_block_def bind_exn_def)
  have once: "length (inflight (run (mount None)
     [FileRead (Some ''data:image/png;base64,AAAA''), RecognizeClicked, RecognizeClicked])) \<le> 1"
    using single_recognition_in_flight
          [of "run (mount None)
                 [FileRead (Some ''data:image/png;base64,AAAA''), RecognizeClicked,
                  RecognizeClicked]"
              None "[FileRead (Some ''data:image/png;base64,AAAA''), RecognizeClicked,
                     RecognizeClicked]"
              RecognizeClicked Rejects 0 0]
    by simp
  show ?thesis
    using busy once
      single_recognition_in_flight
          [of ?w None "[FileRead (Some ''data:image/png;base64,AAAA''), RecognizeClicked]"
              RecognizeClicked
              "Resolves (Some (Encodes (JObject [(''plate_number'', JString ''XYZ789'')])))" 7 8]
      single_recognition_in_flight
          [of ?w None "[FileRead (Some ''data:image/png;base64,AAAA''), RecognizeClicked]"
              RecognizeClicked "Resolves (Some Malformed)" 7 8]
    by (simp add: ok bad start prepend_def)
qed


subsection \<open>A failed recognition\<close>



subsection \<open>A successful recognition\<close>

text \<open>
  C8: when the waiting call \<open>i\<close> settles with a reply whose seven fields are the strings
  \<open>p\<close>, \<open>r\<close>, \<open>mk\<close>, \<open>md\<close>, \<open>c\<close>, \<open>t\<close>, \<open>s\<close>, the record built has
  \<^verbatim>\<open>plateNumber\<close> \<open>p\<close>, \<^verbatim>\<open>region\<close> \<open>r\<close>, \<^verbatim>\<open>vehicle\<close> with make \<open>mk\<close>, model
  \<open>md\<close>, color \<open>c\<close>, type \<open>t\<close>, and \<^verbatim>\<open>confidence\<close> \<open>s\<close>; it becomes
  \<^verbatim>\<open>result\<close> and the record at index 0 of the history, in front of the first 9 former
  records.
\<close>

theorem successful_recognition_record:
  assumes "i < length (inflight w)"
    and "resp = Resolves (Some (Encodes (JObject kvs)))"
    and "map_of kvs ''plate_number'' = Some (JString p)"
    and "map_of kvs ''region'' = Some (JString r)"
    and "map_of kvs ''vehicle_make'' = Some (JString mk)"
    and "map_of kvs ''vehicle_model'' = Some (JString md)"
    and "map_of kvs ''vehicle_color'' = Some (JString c)"
    and "map_of kvs ''vehicle_type'' = Some (JString t)"
    and "map_of kvs ''confidence_score'' = Some (JString s)"
  shows "\<exists>rec. result (step w (Settled i resp t1 t2)) = Some rec \<and>
           history (step w (Settled i resp t1 t2)) = rec # take 9 (history w) \<and>
           history (step w (Settled i resp t1 t2)) ! 0 = rec \<and>
           plateNumber rec = JString p \<and> region rec = JString r \<and>
           vehicle rec = \<lparr>make_v = JString mk, model = JString md, color = JString c,
                            type_v = JString t\<rparr> \<and>
           confidence rec = JString s \<and>
           imageUrl rec = captured (inflight w ! i) \<and>
           error (step w (Settled i resp t1 t2)) = error w \<and>
           isProcessing (step w (Settled i resp t1 t2)) = False"
proof -
  let ?rec = "\<lparr>id_s = toString t1, timestamp = t2, imageUrl = captured (inflight w ! i),
            plateNumber = JString p, region = JString r,
            vehicle = \<lparr>make_v = JString mk, model = JString md, color = JString c,
                         type_v = JString t\<rparr>,
            confidence = JString s\<rparr>"
  have "try_block (inflight w ! i) resp t1 t2 = Inr ?rec"
    using assms(2-9) by (simp add: try_block_def newResult_def bind_exn_def)
  then have "step w (Settled i resp t1 t2) =
           w\<lparr>inflight := take i (inflight w) @ drop (Suc i) (inflight w),
             result := Some ?rec, history := prepend ?rec (history w), isProcessing := False,
             storage := Some (Encodes (prepend ?rec (history w)))\<rparr>"
    using settle_success [OF assms(1)] by simp
  then show ?thesis by (simp add: prepend_Cons)
qed

theorem successful_recognition_record_witness:
  "0 < length (inflight (run (mount None)
         [FileRead (Some ''data:image/png;base64,AAAA''), RecognizeClicked])) \<and>
   map_of [(''plate_number'', JString ''ABC123''), (''region'', JString ''CA''),
           (''vehicle_make'', JString ''Toyota''), (''vehicle_model'', JString ''Camry''),
           (''vehicle_color'', JString ''Blue''), (''vehicle_type'', JString ''Sedan''),
           (''confidence_score'', JString ''High'')] ''confidence_score''
     = Some (JString ''High'') \<and>
   (\<exists>rec. history (step (run (mount None)
                [FileRead (Some ''data:image/png;base64,AAAA''), RecognizeClicked])
              (Settled 0 (Resolves (Some (Encodes (JObject
                 [(''plate_number'', JString ''ABC123''), (''region'', JString ''CA''),
                  (''vehicle_make'', JString ''Toyota''), (''vehicle_model'', JString ''Camry''),
                  (''vehicle_color'', JString ''Blue''), (''vehicle_type'', JString ''Sedan''),
                  (''confidence_score'', JString ''High'')]))))
                 1700000000001 1700000000001)) ! 0 = rec \<and>
      plateNumber rec = JString ''ABC123'' \<and>
      vehicle rec = \<lparr>make_v = JString ''Toyota'', model = JString ''Camry'',
                       color = JString ''Blue'', type_v = JString ''Sedan''\<rparr> \<and>
      confidence rec = JString ''High'')"
proof -
  have waiting: "0 < length (inflight (run (mount None)
         [FileRead (Some ''data:image/png;base64,AAAA''), RecognizeClicked]))"
    by (simp add: run_def mount_def load_history_effect_def save_history_effect_def
      handleFileUpload_def processImage_start_def)
  show ?thesis
    using waiting
      successful_recognition_record
          [OF waiting,
           of "Resolves (Some (Encodes (JObject
                 [(''plate_number'', JString ''ABC123''), (''region'', JString ''CA''),
                  (''vehicle_make'', JString ''Toyota''), (''vehicle_model'', JString ''Camry''),
                  (''vehicle_color'', JString ''Blue''), (''vehicle_type'', JString ''Sedan''),
                  (''confidence_score'', JString ''High'')])))"
              "[(''plate_number'', JString ''ABC123''), (''region'', JString ''CA''),
                  (''vehicle_make'', JString ''Toyota''), (''vehicle_model'', JString ''Camry''),
                  (''vehicle_color'', JString ''Blue''), (''vehicle_type'', JString ''Sedan''),
                  (''confidence_score'', JString ''High'')]"
              "''ABC123''" "''CA''" "''Toyota''" "''Camry''" "''Blue''" "''Sedan''" "''High''"
              1700000000001 1700000000001]
    by simp
qed

subsection \<open>Loading an absent or unparsable entry\<close>

text \<open>
  C9: when the stored entry is absent, is the empty string, or does not parse, then after
  mounting the history is empty and \<^verbatim>\<open>error\<close>, the only message the user is shown, is
  absent; the parse failure goes to the console only.
\<close>

theorem load_absent_or_malformed:
  "saved = None \<or> saved = Some Empty \<or> saved = Some Malformed \<Longrightarrow>
   history (mount saved) = [] \<and> error (mount saved) = None \<and>
   result (mount saved) = None \<and> storage (mount saved) = Some (Encodes [])"
  by (auto simp: mount_def load_history_effect_def save_history_effect_def JSON_stringify_def)

theorem load_absent_or_malformed_witness:
  "(Some Malformed = None \<or> Some Malformed = Some Empty \<or>
      (Some Malformed :: ScanResult list json_text option) = Some Malformed) \<and>
   history (mount (Some Malformed)) = [] \<and> error (mount (Some Malformed)) = None"
  using load_absent_or_malformed [of "Some Malformed"] by simp

subsection \<open>The identifier and the timestamp\<close>

text \<open>
  C10, as the code has it: the identifier of a record is the decimal rendering of the
  first of two clock readings and its timestamp is the second reading. The identifier is
  the rendering of the timestamp when the two readings are equal, and two records built
  from the same first reading have the same identifier.
\<close>

theorem identifier_from_first_reading:
  assumes "try_block req resp t1 t2 = Inr r"
  shows "id_s r = toString t1 \<and> timestamp r = t2 \<and>
         (t1 = t2 \<longrightarrow> id_s r = toString (timestamp r)) \<and>
         (try_block req' resp' t1 t2' = Inr r' \<longrightarrow> id_s r' = id_s r)"
  using try_block_Inr [OF assms] try_block_Inr [of req' resp' t1 t2' r'] by simp

theorem identifier_from_first_reading_witness:
  "try_block \<lparr>captured = ''data:image/png;base64,AAAA'', base64Data = Some ''AAAA''\<rparr>
     (Resolves (Some (Encodes (JObject [])))) 1000 1001
     = Inr \<lparr>id_s = ''1000'', timestamp = 1001, imageUrl = ''data:image/png;base64,AAAA'',
          plateNumber = JUndefined, region = JUndefined,
          vehicle = \<lparr>make_v = JUndefined, model = JUndefined, color = JUndefined,
                     type_v = JUndefined\<rparr>,
          confidence = JUndefined\<rparr> \<and>
   toString 1000 = ''1000''"
proof -
  have ts: "toString 1000 = ''1000''" by code_simp
  have tb: "try_block \<lparr>captured = ''data:image/png;base64,AAAA'', base64Data = Some ''AAAA''\<rparr>
     (Resolves (Some (Encodes (JObject [])))) 1000 1001
     = Inr \<lparr>id_s = ''1000'', timestamp = 1001, imageUrl = ''data:image/png;base64,AAAA'',
          plateNumber = JUndefined, region = JUndefined,
          vehicle = \<lparr>make_v = JUndefined, model = JUndefined, color = JUndefined,
                     type_v = JUndefined\<rparr>,
          confidence = JUndefined\<rparr>"
    by (simp add: try_block_def newResult_def bind_exn_def ts)
  show ?thesis
    using identifier_from_first_reading [OF tb] tb by simp
qed

text \<open>The clock reads 1000 for the identifier and 1001 for the timestamp: the identifier
  is not the rendering of the timestamp.\<close>

theorem identifier_differs_from_timestamp_counterexample:
  "result (run (mount None)
      [FileRead (Some ''data:image/png;base64,AAAA''), RecognizeClicked,
       Settled 0 (Resolves (Some (Encodes (JObject [(''plate_number'', JString ''ABC123'')]))))
         1000 1001]) \<noteq> None \<and>
   id_s (the (result (run (mount None)
      [FileRead (Some ''data:image/png;base64,AAAA''), RecognizeClicked,
       Settled 0 (Resolves (Some (Encodes (JObject [(''plate_number'', JString ''ABC123'')]))))
         1000 1001])))
   \<noteq> toString (timestamp (the (result (run (mount None)
      [FileRead (Some ''data:image/png;base64,AAAA''), RecognizeClicked,
       Settled 0 (Resolves (Some (Encodes (JObject [(''plate_number'', JString ''ABC123'')]))))
         1000 1001]))))"
proof -
  have "toString 1000 \<noteq> toString 1001" by code_simp
  then show ?thesis
    by (simp add: run_def mount_def load_history_effect_def save_history_effect_def
      handleFileUpload_def processImage_start_def processImage_settle_def index_def
      try_block_def newResult_def bind_exn_def prepend_def)
qed

end
